theory Spec2Isabelle
  imports Complex_Main
begin

section \<open>JavaScript strings\<close>

text \<open>
  A JavaScript string is a sequence of UTF-16 code units, and \<open>length\<close>, \<open>trim\<close>,
  \<open>split\<close>, \<open>includes\<close> and the regular expressions of the service all work on code
  units. A text is therefore a list of code units (integers from 0 to 65535); \<open>str\<close>
  embeds an ASCII literal.
\<close>

type_synonym jsstring = "int list"

definition str :: "string \<Rightarrow> jsstring" where
  "str s = map of_char s"

text \<open>
  \<open>String.prototype.toLowerCase\<close>, for the Basic Latin and Latin-1 Supplement blocks and
  for U+0130 (capital I with dot above), whose lower case is the two code units U+0069
  U+0307. Every other code unit is left as it is: the model covers texts over these
  code units.
\<close>

definition lower_unit :: "int \<Rightarrow> jsstring" where
  "lower_unit c =
     (if (65 \<le> c \<and> c \<le> 90) \<or> (192 \<le> c \<and> c \<le> 222 \<and> c \<noteq> 215) then [c + 32]
      else if c = 304 then [105, 775]
      else [c])"

definition toLowerCase :: "jsstring \<Rightarrow> jsstring" where
  "toLowerCase s = concat (map lower_unit s)"

text \<open>\<open>String.prototype.trim\<close> strips white space and line terminators at both ends.\<close>

definition isWhiteSpace :: "int \<Rightarrow> bool" where
  "isWhiteSpace c =
     (c \<in> set [9, 10, 11, 12, 13, 32, 160, 5760, 8232, 8233, 8239, 8287, 12288, 65279]
      \<or> (8192 \<le> c \<and> c \<le> 8202))"

definition trim :: "jsstring \<Rightarrow> jsstring" where
  "trim s = rev (dropWhile isWhiteSpace (rev (dropWhile isWhiteSpace s)))"

fun starts_with :: "jsstring \<Rightarrow> jsstring \<Rightarrow> bool" where
  "starts_with [] s = True"
| "starts_with (p # ps) [] = False"
| "starts_with (p # ps) (c # cs) = (p = c \<and> starts_with ps cs)"

text \<open>\<open>s.includes(sub)\<close>.\<close>

fun includes_str :: "jsstring \<Rightarrow> jsstring \<Rightarrow> bool" where
  "includes_str [] sub = (sub = [])"
| "includes_str (c # cs) sub = (starts_with sub (c # cs) \<or> includes_str cs sub)"

text \<open>\<open>s.split(sep)\<close> for a separator of one code unit; the empty string gives one piece.\<close>

fun split_on :: "int \<Rightarrow> jsstring \<Rightarrow> jsstring list" where
  "split_on sep [] = [[]]"
| "split_on sep (c # cs) =
     (if c = sep then [] # split_on sep cs
      else (case split_on sep cs of [] \<Rightarrow> [[c]] | p # ps \<Rightarrow> (c # p) # ps))"

text \<open>
  \<open>(s.match(new RegExp(keyword, 'g')) || []).length\<close> for a keyword without regular
  expression operators (every keyword of the service is letters and spaces): the matches
  are found from left to right and do not overlap.
\<close>

fun count_matches :: "jsstring \<Rightarrow> jsstring \<Rightarrow> nat" where
  "count_matches keyword [] = (if keyword = [] then 1 else 0)"
| "count_matches keyword (c # cs) =
     (if keyword = [] then Suc (count_matches keyword cs)
      else if starts_with keyword (c # cs)
        then Suc (count_matches keyword (drop (length keyword - 1) cs))
      else count_matches keyword cs)"

text \<open>\<open>/[A-Z]{2,}/.test(s)\<close>: two ASCII capitals in a row.\<close>

definition isUpper :: "int \<Rightarrow> bool" where
  "isUpper c = (65 \<le> c \<and> c \<le> 90)"

fun hasCapitalRun :: "jsstring \<Rightarrow> bool" where
  "hasCapitalRun (a # b # cs) = ((isUpper a \<and> isUpper b) \<or> hasCapitalRun (b # cs))"
| "hasCapitalRun cs = False"


section \<open>JavaScript values\<close>

text \<open>
  A number is a finite real or \<open>NaN\<close>: rounding to IEEE doubles and overflow to
  \<open>Infinity\<close> are outside the model. \<open>jsval\<close> holds what a field of a parsed JSON reply
  can hold at run time, \<open>JUndefined\<close> being the value of a missing field.
\<close>

datatype number = NaN | Num real

datatype jsval =
    JUndefined
  | JNull
  | JBool bool
  | JNumber number
  | JStr jsstring
  | JArr "jsval list"
  | JObj "(jsstring \<times> jsval) list"

fun truthy :: "jsval \<Rightarrow> bool" where
  "truthy JUndefined = False"
| "truthy JNull = False"
| "truthy (JBool b) = b"
| "truthy (JNumber NaN) = False"
| "truthy (JNumber (Num r)) = (r \<noteq> 0)"
| "truthy (JStr s) = (s \<noteq> [])"
| "truthy (JArr vs) = True"
| "truthy (JObj ps) = True"

text \<open>\<open>a || b\<close>.\<close>

definition js_or :: "jsval \<Rightarrow> jsval \<Rightarrow> jsval" where
  "js_or a b = (if truthy a then a else b)"

text \<open>
  The functions of the JavaScript runtime that the service calls and that are not
  modelled here are parameters: \<open>JSON.parse\<close> on a text that starts with a brace (the
  properties of the parsed object, or \<open>None\<close> where it throws a SyntaxError), the
  conversion of a string, an array or an object to a number, and the decimal text of a
  number in a template literal.
\<close>

record runtime =
  JSON_parse :: "jsstring \<Rightarrow> (jsstring \<rightharpoonup> jsval) option"
  toNumber_nonprimitive :: "jsval \<Rightarrow> number"
  Number_toString :: "real \<Rightarrow> jsstring"

fun ToNumber :: "runtime \<Rightarrow> jsval \<Rightarrow> number" where
  "ToNumber js JUndefined = NaN"
| "ToNumber js JNull = Num 0"
| "ToNumber js (JBool b) = Num (if b then 1 else 0)"
| "ToNumber js (JNumber n) = n"
| "ToNumber js v = toNumber_nonprimitive js v"

fun Math_max :: "number \<Rightarrow> number \<Rightarrow> number" where
  "Math_max (Num a) (Num b) = Num (max a b)"
| "Math_max a b = NaN"

fun Math_min :: "number \<Rightarrow> number \<Rightarrow> number" where
  "Math_min (Num a) (Num b) = Num (min a b)"
| "Math_min a b = NaN"

text \<open>\<open>analysis.name\<close>: the property, or \<open>undefined\<close>.\<close>

definition property :: "(jsstring \<rightharpoonup> jsval) \<Rightarrow> string \<Rightarrow> jsval" where
  "property obj name = (case obj (str name) of None \<Rightarrow> JUndefined | Some v \<Rightarrow> v)"


section \<open>The emotion record\<close>

text \<open>
  \<open>EmotionData\<close> as it exists at run time. TypeScript declares \<open>emotion\<close> an
  \<open>EmotionLabel\<close>, \<open>intensity\<close> and \<open>speaking_pace\<close> string unions and the metrics
  numbers, but a record built from a live reply holds whatever the reply held (the
  casts are not checked), so these fields are \<open>jsval\<close>; \<open>confidence\<close> always went
  through \<open>Math.min\<close> or is computed, and is a number.
\<close>

record additionalMetrics =
  stress_level :: jsval
  energy_level :: jsval
  speaking_pace :: jsval
  voice_stability :: jsval

record EmotionData =
  emotion :: jsval
  confidence :: number
  timestamp :: real
  secondsFromStart :: real
  duration :: real
  intensity :: jsval
  additionalMetrics :: additionalMetrics


section \<open>The fallback classifier\<close>

definition emotionPatterns :: "(jsstring \<times> jsstring list) list" where
  "emotionPatterns =
     [(str ''confident'',
         map str [''sure'', ''definitely'', ''absolutely'', ''i know'', ''certain'', ''experience'']),
      (str ''nervous'',
         map str [''um'', ''uh'', ''i think'', ''maybe'', ''not sure'', ''i guess'']),
      (str ''excited'',
         map str [''great'', ''amazing'', ''love'', ''excited'', ''fantastic'', ''wonderful'']),
      (str ''stressed'',
         map str [''difficult'', ''hard'', ''struggle'', ''challenging'', ''overwhelming'']),
      (str ''frustrated'',
         map str [''but'', ''however'', ''unfortunately'', ''problem'', ''issue'']),
      (str ''calm'',
         map str [''okay'', ''fine'', ''alright'', ''steady'', ''stable'']),
      (str ''happy'',
         map str [''good'', ''well'', ''positive'', ''pleased'', ''satisfied'']),
      (str ''disappointed'',
         map str [''not good'', ''unfortunately'', ''sadly'', ''failed'', ''disappointed''])]"

text \<open>The \<open>reduce\<close> over the keywords of one category.\<close>

definition keywordScore :: "jsstring \<Rightarrow> jsstring list \<Rightarrow> nat" where
  "keywordScore lowerText keywords =
     foldl (\<lambda>acc keyword. acc + count_matches keyword lowerText) 0 keywords"

text \<open>One turn of the \<open>forEach\<close> over the categories, on \<open>(maxScore, detectedEmotion)\<close>.\<close>

definition scoreStep ::
  "jsstring \<Rightarrow> nat \<times> jsstring \<Rightarrow> jsstring \<times> jsstring list \<Rightarrow> nat \<times> jsstring" where
  "scoreStep lowerText acc entry =
     (let score = keywordScore lowerText (snd entry)
      in if score > fst acc then (score, fst entry) else acc)"

definition detectEmotion :: "jsstring \<Rightarrow> nat \<times> jsstring" where
  "detectEmotion lowerText = foldl (scoreStep lowerText) (0, str ''neutral'') emotionPatterns"

text \<open>\<open>text.split(' ').length\<close>.\<close>

definition wordCount :: "jsstring \<Rightarrow> nat" where
  "wordCount text = length (split_on 32 text)"

definition fallbackTextAnalysis :: "jsstring \<Rightarrow> real \<Rightarrow> real \<Rightarrow> EmotionData" where
  "fallbackTextAnalysis text ts speakingDuration =
     (let lowerText = toLowerCase text;
          maxScore = fst (detectEmotion lowerText);
          detectedEmotion = snd (detectEmotion lowerText);
          wordCount = wordCount text;
          conf = min (0.3 + (real maxScore / real wordCount) * 2) 0.85;
          hasCapitals = hasCapitalRun text;
          hasExclamation = includes_str text (str ''!'');
          level =
            (if hasCapitals \<or> hasExclamation \<or> maxScore > 2 then ''high''
             else if maxScore = 0 \<or> length text < 20 then ''low''
             else ''medium'')
      in \<lparr> emotion = JStr detectedEmotion,
           confidence = Num conf,
           timestamp = ts,
           secondsFromStart = ts / 1000,
           duration = speakingDuration,
           intensity = JStr (str level),
           additionalMetrics =
             \<lparr> stress_level =
                 JNumber (Num (if detectedEmotion \<in> set [str ''nervous'', str ''stressed'']
                               then 0.7 else 0.3)),
               energy_level =
                 JNumber (Num (if detectedEmotion \<in> set [str ''excited'', str ''confident'']
                               then 0.8 else 0.5)),
               speaking_pace =
                 JStr (str (if wordCount > 50 then ''fast''
                            else if wordCount < 20 then ''slow'' else ''normal'')),
               voice_stability = JNumber (Num conf) \<rparr> \<rparr>)"


section \<open>The retry executor\<close>

text \<open>
  What a rejected promise or a \<open>throw\<close> carries: an error with its \<open>message\<close> (which may
  be missing), the TypeError of indexing \<open>null\<close>, the SyntaxError of \<open>JSON.parse\<close>.
\<close>

datatype error = Error "jsstring option" | TypeError | SyntaxError

text \<open>\<open>error.message?.includes('429') || error.message?.includes('quota')\<close>.\<close>

definition isRateLimitError :: "jsstring option \<Rightarrow> bool" where
  "isRateLimitError message =
     (case message of
        None \<Rightarrow> False
      | Some m \<Rightarrow> includes_str m (str ''429'') \<or> includes_str m (str ''quota''))"

text \<open>
  The outcome of \<open>retryWithBackoff\<close>, with what it did on the way: how many times it
  called \<open>fn\<close> and the delays it slept, in milliseconds and in order.
\<close>

record 'a retried =
  outcome :: "error + 'a"
  attempts :: nat
  delays :: "real list"

text \<open>
  The \<open>for\<close> loop from \<open>attempt\<close> on. The wrapped call is \<open>fn\<close>: \<open>fn k\<close> is what its
  \<open>k\<close>-th call does, \<open>Inr\<close> the value it resolves with or \<open>Inl\<close> the message of the error
  it rejects with; \<open>random k\<close> is the value of \<open>Math.random()\<close> drawn after the \<open>k\<close>-th call.
\<close>

function retryLoop ::
  "(nat \<Rightarrow> jsstring option + 'a) \<Rightarrow> (nat \<Rightarrow> real) \<Rightarrow> nat \<Rightarrow> real \<Rightarrow> nat \<Rightarrow> real list
     \<Rightarrow> 'a retried" where
  "retryLoop fn random maxRetries baseDelay attempt slept =
     (if attempt \<le> maxRetries then
        (case fn attempt of
           Inr v \<Rightarrow> \<lparr> outcome = Inr v, attempts = attempt, delays = slept \<rparr>
         | Inl message \<Rightarrow>
             if attempt = maxRetries
               then \<lparr> outcome = Inl (Error message), attempts = attempt, delays = slept \<rparr>
             else if isRateLimitError message
               then retryLoop fn random maxRetries baseDelay (attempt + 1)
                      (slept @ [baseDelay * 2 ^ (attempt - 1) + random attempt * 1000])
             else \<lparr> outcome = Inl (Error message), attempts = attempt, delays = slept \<rparr>)
      else \<lparr> outcome = Inl (Error (Some (str ''Max retries exceeded''))),
             attempts = attempt - 1, delays = slept \<rparr>)"
  by pat_completeness auto
termination
  by (relation "measure (\<lambda>(fn, random, maxRetries, baseDelay, attempt, slept).
                           Suc maxRetries - attempt)") auto

definition retryWithBackoff ::
  "(nat \<Rightarrow> jsstring option + 'a) \<Rightarrow> (nat \<Rightarrow> real) \<Rightarrow> nat \<Rightarrow> real \<Rightarrow> 'a retried" where
  "retryWithBackoff fn random maxRetries baseDelay = retryLoop fn random maxRetries baseDelay 1 []"


section \<open>The result cache\<close>

text \<open>
  A JavaScript \<open>Map\<close> iterates in insertion order and \<open>set\<close> on a key that is present
  keeps its place: an association list with distinct keys, oldest first.
\<close>

definition Map_has :: "('k \<times> 'v) list \<Rightarrow> 'k \<Rightarrow> bool" where
  "Map_has m k = (k \<in> set (map fst m))"

definition Map_get :: "('k \<times> 'v) list \<Rightarrow> 'k \<Rightarrow> 'v option" where
  "Map_get m k = map_of m k"

fun Map_set :: "'k \<Rightarrow> 'v \<Rightarrow> ('k \<times> 'v) list \<Rightarrow> ('k \<times> 'v) list" where
  "Map_set k v [] = [(k, v)]"
| "Map_set k v (e # m) = (if fst e = k then (k, v) # m else e # Map_set k v m)"

definition Map_delete :: "'k \<Rightarrow> ('k \<times> 'v) list \<Rightarrow> ('k \<times> 'v) list" where
  "Map_delete k m = filter (\<lambda>e. fst e \<noteq> k) m"

text \<open>The fields of a record that are cached: all but the two times.\<close>

record cacheableData =
  cached_emotion :: jsval
  cached_confidence :: number
  cached_duration :: real
  cached_intensity :: jsval
  cached_additionalMetrics :: additionalMetrics

type_synonym cache = "(jsstring \<times> cacheableData) list"

definition cacheable :: "EmotionData \<Rightarrow> cacheableData" where
  "cacheable emotionData =
     \<lparr> cached_emotion = emotion emotionData,
       cached_confidence = confidence emotionData,
       cached_duration = duration emotionData,
       cached_intensity = intensity emotionData,
       cached_additionalMetrics = additionalMetrics emotionData \<rparr>"

text \<open>\<open>{...cachedResult, timestamp, secondsFromStart: timestamp / 1000}\<close>.\<close>

definition fromCache :: "cacheableData \<Rightarrow> real \<Rightarrow> EmotionData" where
  "fromCache cachedResult ts =
     \<lparr> emotion = cached_emotion cachedResult,
       confidence = cached_confidence cachedResult,
       timestamp = ts,
       secondsFromStart = ts / 1000,
       duration = cached_duration cachedResult,
       intensity = cached_intensity cachedResult,
       additionalMetrics = cached_additionalMetrics cachedResult \<rparr>"

text \<open>
  \<open>emotionCache.set(cacheKey, cacheableData)\<close>, then the size limit: over 100 entries,
  the first key of the iteration is deleted if it is truthy (a non-empty string).
\<close>

definition cacheStore :: "jsstring \<Rightarrow> cacheableData \<Rightarrow> cache \<Rightarrow> cache" where
  "cacheStore cacheKey cacheableData emotionCache =
     (let stored = Map_set cacheKey cacheableData emotionCache
      in if length stored > 100 then
           (case stored of
              [] \<Rightarrow> stored
            | first # rest \<Rightarrow> if fst first \<noteq> [] then Map_delete (fst first) stored else stored)
         else stored)"

text \<open>The template literal \<open>`${text.trim().toLowerCase()}_${speakingDuration}`\<close>.\<close>

definition cacheKey :: "runtime \<Rightarrow> jsstring \<Rightarrow> real \<Rightarrow> jsstring" where
  "cacheKey js text speakingDuration =
     toLowerCase (trim text) @ str ''_'' @ Number_toString js speakingDuration"


section \<open>The dispatcher\<close>

text \<open>
  The state of the service that outlives a call: the cache and the count of requests
  that went through the queue. The queue serves one request at a time in arrival order,
  and \<open>lastRequestTime\<close> only decides how long a request waits; a call is modelled
  from its entry to its return, with no other call in between.
\<close>

record service =
  emotionCache :: cache
  requestCount :: nat

definition initial_service :: service where
  "initial_service = \<lparr> emotionCache = [], requestCount = 0 \<rparr>"

definition MAX_RETRIES :: nat where
  "MAX_RETRIES = 3"

text \<open>The environment variables the service reads, at every call.\<close>

record env =
  GOOGLE_AI_API_KEY :: "jsstring option"
  NEXT_PUBLIC_GOOGLE_AI_API_KEY :: "jsstring option"
  EMOTION_DETECTION_FALLBACK_ONLY :: "jsstring option"

definition fallbackOnly :: "env \<Rightarrow> bool" where
  "fallbackOnly e = (EMOTION_DETECTION_FALLBACK_ONLY e = Some (str ''true''))"

text \<open>
  \<open>!apiKey\<close> for \<open>apiKey = GOOGLE_AI_API_KEY || NEXT_PUBLIC_GOOGLE_AI_API_KEY\<close>: a variable
  that is unset or empty is falsy.
\<close>

definition apiKeyMissing :: "env \<Rightarrow> bool" where
  "apiKeyMissing e =
     (GOOGLE_AI_API_KEY e \<in> set [None, Some []]
      \<and> NEXT_PUBLIC_GOOGLE_AI_API_KEY e \<in> set [None, Some []])"

text \<open>
  \<open>result.match(/\{[\s\S]*\}/)\<close>: from the first opening brace to the last closing brace
  after it; \<open>None\<close> is the \<open>null\<close> of no match. Code unit 123 is the opening brace, 125
  the closing one.
\<close>

definition jsonMatch :: "jsstring \<Rightarrow> jsstring option" where
  "jsonMatch s =
     (case dropWhile (\<lambda>c. c \<noteq> 123) s of
        [] \<Rightarrow> None
      | brace # rest \<Rightarrow>
          if 125 \<in> set rest
            then Some (brace # rev (dropWhile (\<lambda>c. c \<noteq> 125) (rev rest)))
          else None)"

text \<open>The record built from a parsed reply.\<close>

definition buildEmotionData ::
  "runtime \<Rightarrow> (jsstring \<rightharpoonup> jsval) \<Rightarrow> real \<Rightarrow> real \<Rightarrow> EmotionData" where
  "buildEmotionData js analysis ts speakingDuration =
     \<lparr> emotion = property analysis ''emotion'',
       confidence =
         Math_min
           (Math_max (ToNumber js (js_or (property analysis ''confidence'') (JNumber (Num 0.5))))
                     (Num 0))
           (Num 1),
       timestamp = ts,
       secondsFromStart = ts / 1000,
       duration = speakingDuration,
       intensity = js_or (property analysis ''intensity'') (JStr (str ''medium'')),
       additionalMetrics =
         \<lparr> stress_level = js_or (property analysis ''stress_level'') (JNumber (Num 0.5)),
           energy_level = js_or (property analysis ''energy_level'') (JNumber (Num 0.5)),
           speaking_pace = js_or (property analysis ''speaking_pace'') (JStr (str ''normal'')),
           voice_stability = js_or (property analysis ''voice_stability'') (JNumber (Num 0.5)) \<rparr> \<rparr>"

text \<open>
  What a call hands back besides its value: the service afterwards, how many times the
  live service was called and the backoff delays slept.
\<close>

record 'a traced =
  returned :: 'a
  service_after :: service
  liveAttempts :: nat
  backoffDelays :: "real list"

text \<open>
  The body of the \<open>try\<close> block: the request goes through the queue (which counts it
  whether it resolves or rejects) and the retry executor; \<open>generateContent k\<close> is what the
  \<open>k\<close>-th call of the live service does, its reply text or the message of its error.
\<close>

definition tryLive ::
  "runtime \<Rightarrow> (nat \<Rightarrow> jsstring option + jsstring) \<Rightarrow> (nat \<Rightarrow> real) \<Rightarrow> jsstring \<Rightarrow> real \<Rightarrow> real
     \<Rightarrow> service \<Rightarrow> (error + EmotionData) traced" where
  "tryLive js generateContent random text ts speakingDuration svc =
     (let r = retryWithBackoff generateContent random MAX_RETRIES 2000;
          queued = svc\<lparr> requestCount := requestCount svc + 1 \<rparr>;
          throw = (\<lambda>e. \<lparr> returned = Inl e, service_after = queued,
                          liveAttempts = attempts r, backoffDelays = delays r \<rparr>)
      in case outcome r of
           Inl e \<Rightarrow> throw e
         | Inr reply \<Rightarrow>
             (case jsonMatch reply of
                None \<Rightarrow> throw TypeError
              | Some matched \<Rightarrow>
                  (case JSON_parse js matched of
                     None \<Rightarrow> throw SyntaxError
                   | Some analysis \<Rightarrow>
                       (let emotionData = buildEmotionData js analysis ts speakingDuration
                        in \<lparr> returned = Inr emotionData,
                             service_after =
                               queued\<lparr> emotionCache :=
                                 cacheStore (cacheKey js text speakingDuration)
                                   (cacheable emotionData) (emotionCache queued) \<rparr>,
                             liveAttempts = attempts r,
                             backoffDelays = delays r \<rparr>))))"

text \<open>
  \<open>analyzeTextEmotion\<close>. The promise it returns resolves (\<open>Inr\<close>) or rejects (\<open>Inl\<close>).
\<close>

definition analyzeTextEmotion ::
  "runtime \<Rightarrow> env \<Rightarrow> (nat \<Rightarrow> jsstring option + jsstring) \<Rightarrow> (nat \<Rightarrow> real) \<Rightarrow> jsstring \<Rightarrow> real \<Rightarrow> real
     \<Rightarrow> service \<Rightarrow> error + EmotionData traced" where
  "analyzeTextEmotion js e generateContent random text ts speakingDuration svc =
     (let offline = (\<lambda>d. Inr \<lparr> returned = d, service_after = svc,
                              liveAttempts = 0, backoffDelays = [] \<rparr>)
      in if fallbackOnly e \<or> apiKeyMissing e
           then offline (fallbackTextAnalysis text ts speakingDuration)
         else
           (case Map_get (emotionCache svc) (cacheKey js text speakingDuration) of
              Some cachedResult \<Rightarrow> offline (fromCache cachedResult ts)
            | None \<Rightarrow>
                if length (trim text) < 10
                  then offline (fallbackTextAnalysis text ts speakingDuration)
                else
                  (let t = tryLive js generateContent random text ts speakingDuration svc
                   in Inr \<lparr> returned =
                              (case returned t of
                                 Inl err \<Rightarrow> fallbackTextAnalysis text ts speakingDuration
                               | Inr emotionData \<Rightarrow> emotionData),
                            service_after = service_after t,
                            liveAttempts = liveAttempts t,
                            backoffDelays = backoffDelays t \<rparr>)))"

text \<open>The states of the service that calls can reach from a fresh one.\<close>

inductive reachable :: "runtime \<Rightarrow> service \<Rightarrow> bool" for js :: runtime where
  fresh: "reachable js initial_service"
| call: "reachable js svc \<Longrightarrow>
         analyzeTextEmotion js e generateContent random text ts speakingDuration svc = Inr t \<Longrightarrow>
         reachable js (service_after t)"


section \<open>The session aggregator\<close>

text \<open>
  \<open>emotionCounts\<close>: an object used as a table from label to count. For keys that are not
  array indices, as the ten labels are, \<open>Object.entries\<close> lists the properties in the
  order they were first assigned.
\<close>

definition EmotionLabels :: "jsval list" where
  "EmotionLabels =
     map (\<lambda>s. JStr (str s))
       [''happy'', ''neutral'', ''nervous'', ''confident'', ''stressed'', ''excited'',
        ''disappointed'', ''frustrated'', ''calm'', ''uncertain'']"

definition emotionCounts :: "EmotionData list \<Rightarrow> (jsval \<times> nat) list" where
  "emotionCounts emotions =
     foldl (\<lambda>acc e. Map_set (emotion e)
                      ((case Map_get acc (emotion e) of None \<Rightarrow> 0 | Some n \<Rightarrow> n) + 1) acc)
       [] emotions"

text \<open>
  \<open>Object.entries(emotionCounts).sort(([,a], [,b]) => b - a)[0][0]\<close>, after the early
  return for no records. \<open>Array.prototype.sort\<close> is stable; indexing the missing first
  entry of an empty array would throw.
\<close>

definition mostFrequentEmotion :: "EmotionData list \<Rightarrow> error + jsval" where
  "mostFrequentEmotion emotions =
     (if emotions = [] then Inr (JStr (str ''neutral''))
      else
        (case sort_key (\<lambda>entry. - int (snd entry)) (emotionCounts emotions) of
           [] \<Rightarrow> Inl TypeError
         | entry # rest \<Rightarrow> Inr (fst entry)))"





section \<open>Notions of the specification\<close>




text \<open>
  The condition under which a call reaches the live service: a credential is set, the
  fallback-only flag is off, the cache has no entry for the key and the trimmed text has
  at least 10 code units.
\<close>

definition livePath :: "runtime \<Rightarrow> env \<Rightarrow> jsstring \<Rightarrow> real \<Rightarrow> service \<Rightarrow> bool" where
  "livePath js e text speakingDuration svc =
     (\<not> fallbackOnly e \<and> \<not> apiKeyMissing e
      \<and> Map_get (emotionCache svc) (cacheKey js text speakingDuration) = None
      \<and> 10 \<le> length (trim text))"


text \<open>
  The parsed reply of the live call, after the retries, the match of the braces and
  \<open>JSON.parse\<close>; \<open>None\<close> when the call, the match or the parse fails.
\<close>

definition liveReply ::
  "runtime \<Rightarrow> (nat \<Rightarrow> jsstring option + jsstring) \<Rightarrow> (nat \<Rightarrow> real) \<Rightarrow> (jsstring \<rightharpoonup> jsval) option" where
  "liveReply js generateContent random =
     (case outcome (retryWithBackoff generateContent random MAX_RETRIES 2000) of
        Inl err \<Rightarrow> None
      | Inr reply \<Rightarrow>
          (case jsonMatch reply of
             None \<Rightarrow> None
           | Some matched \<Rightarrow> JSON_parse js matched))"

text \<open>
  Concrete inputs: a runtime that parses one reply text (for calls with duration 0 that
  convert no string or object to a number), an environment with a credential, a text of
  15 code units, and a JSON key in double quotes (code unit 34).
\<close>

definition quoted :: "string \<Rightarrow> jsstring" where
  "quoted s = 34 # str s @ [34]"

definition sample_runtime :: "jsstring \<Rightarrow> (jsstring \<rightharpoonup> jsval) \<Rightarrow> runtime" where
  "sample_runtime reply obj =
     \<lparr> JSON_parse = (\<lambda>s. if s = reply then Some obj else None),
       toNumber_nonprimitive = (\<lambda>v. NaN),
       Number_toString = (\<lambda>d. str ''0'') \<rparr>"

definition live_env :: env where
  "live_env =
     \<lparr> GOOGLE_AI_API_KEY = Some (str ''key''),
       NEXT_PUBLIC_GOOGLE_AI_API_KEY = None,
       EMOTION_DETECTION_FALLBACK_ONLY = None \<rparr>"

definition sample_text :: jsstring where
  "sample_text = str ''I am fine today''"


text \<open>
  The invariant of the cache: at most 100 entries, distinct keys, and every key built
  from a text whose trimmed length is at least 10.
\<close>

definition cache_inv :: "runtime \<Rightarrow> cache \<Rightarrow> bool" where
  "cache_inv js c =
     (length c \<le> 100 \<and> distinct (map fst c)
      \<and> (\<forall>k \<in> set (map fst c). \<exists>t d. k = cacheKey js t d \<and> 10 \<le> length (trim t)))"

text \<open>A cache of 100 entries, with the keys [1], ..., [100] in this order.\<close>

definition sample_cache :: cache where
  "sample_cache =
     map (\<lambda>i. ([int i], cacheable (fallbackTextAnalysis [] 0 0))) [1 ..< 101]"


text \<open>
  Two texts with the same lower case: the first is \<open>i\<close>, the combining dot above
  (U+0307) and eight digits, 10 code units; the second is the capital I with dot above
  (U+0130) and the same digits, 9 code units. A live reply that carries confidence 0.9,
  and a runtime that parses it.
\<close>

definition dotted_text :: jsstring where
  "dotted_text = [105, 775] @ str ''12345678''"

definition capital_dotted_text :: jsstring where
  "capital_dotted_text = 304 # str ''12345678''"

definition confident_reply :: jsstring where
  "confident_reply = str ''{'' @ quoted ''confidence'' @ str '':0.9}''"

definition confident_runtime :: runtime where
  "confident_runtime =
     sample_runtime confident_reply [str ''confidence'' \<mapsto> JNumber (Num 0.9)]"


text \<open>
  Sessions for concrete cases: a record with a given label, a session of 5 records
  (2 and 3 in the halves, with 1 and 2 positive labels) and a session of 19 records
  (9 and 10 in the halves, with 6 and 8 positive labels).
\<close>

definition labelled :: "string \<Rightarrow> EmotionData" where
  "labelled l = (fallbackTextAnalysis [] 0 0)\<lparr> emotion := JStr (str l) \<rparr>"




text \<open>How often a label occurs in a session.\<close>

definition occurrences :: "EmotionData list \<Rightarrow> jsval \<Rightarrow> nat" where
  "occurrences es l = length (filter (\<lambda>e. emotion e = l) es)"

text \<open>
  The tie-break in the words of the specification: the labels are scanned in the order
  of the records with a running count per label and a running maximum, and the result
  is the label that first reached the running maximum.
\<close>

fun runningMaxScan :: "jsval list \<Rightarrow> (jsval \<Rightarrow> nat) \<Rightarrow> nat \<Rightarrow> jsval \<Rightarrow> jsval" where
  "runningMaxScan [] counts best_count best = best"
| "runningMaxScan (l # ls) counts best_count best =
     (if counts l + 1 > best_count
        then runningMaxScan ls (counts(l := counts l + 1)) (counts l + 1) l
      else runningMaxScan ls (counts(l := counts l + 1)) best_count best)"

definition firstToReachMax :: "EmotionData list \<Rightarrow> jsval" where
  "firstToReachMax es = runningMaxScan (map emotion es) (\<lambda>l. 0) 0 (JStr (str ''neutral''))"

text \<open>The distinct elements of a list, in the order of their first occurrences.\<close>

fun firsts :: "'a list \<Rightarrow> 'a list" where
  "firsts [] = []"
| "firsts (x # xs) = x # filter (\<lambda>y. y \<noteq> x) (firsts xs)"

text \<open>A session of four records in which two labels occur twice.\<close>

definition tied_session :: "EmotionData list" where
  "tied_session = map labelled [''confident'', ''nervous'', ''nervous'', ''confident'']"


section \<open>The fallback classifier: proofs\<close>



















section \<open>The fallback classifier: formulas\<close>









lemma fallback_fields:
  "confidence (fallbackTextAnalysis text ts d) =
     Num (min (0.3 + (real (fst (detectEmotion (toLowerCase text))) / real (wordCount text)) * 2) 0.85)"
  "intensity (fallbackTextAnalysis text ts d) =
     JStr (str (if hasCapitalRun text \<or> includes_str text (str ''!'')
                   \<or> fst (detectEmotion (toLowerCase text)) > 2 then ''high''
                else if fst (detectEmotion (toLowerCase text)) = 0 \<or> length text < 20 then ''low''
                else ''medium''))"
  "stress_level (additionalMetrics (fallbackTextAnalysis text ts d)) =
     JNumber (Num (if snd (detectEmotion (toLowerCase text)) \<in> set [str ''nervous'', str ''stressed'']
                   then 0.7 else 0.3))"
  "energy_level (additionalMetrics (fallbackTextAnalysis text ts d)) =
     JNumber (Num (if snd (detectEmotion (toLowerCase text)) \<in> set [str ''excited'', str ''confident'']
                   then 0.8 else 0.5))"
  "speaking_pace (additionalMetrics (fallbackTextAnalysis text ts d)) =
     JStr (str (if wordCount text > 50 then ''fast''
                else if wordCount text < 20 then ''slow'' else ''normal''))"
  "voice_stability (additionalMetrics (fallbackTextAnalysis text ts d)) =
     JNumber (confidence (fallbackTextAnalysis text ts d))"
  "timestamp (fallbackTextAnalysis text ts d) = ts"
  "secondsFromStart (fallbackTextAnalysis text ts d) = ts / 1000"
  "duration (fallbackTextAnalysis text ts d) = d"
  by (simp_all add: fallbackTextAnalysis_def Let_def)



section \<open>The retry executor: proofs\<close>

lemma retryLoop_throttled_3:
  assumes "\<forall>k. \<exists>m. fn k = Inl m \<and> isRateLimitError m"
  shows "\<exists>m. fn 3 = Inl m \<and> retryWithBackoff fn random 3 base =
           \<lparr> outcome = Inl (Error m), attempts = 3,
             delays = [base * 2 ^ 0 + random 1 * 1000, base * 2 ^ 1 + random 2 * 1000] \<rparr>"
proof -
  obtain m1 where m1: "fn 1 = Inl m1" "isRateLimitError m1" using assms by blast
  obtain m2 where m2: "fn 2 = Inl m2" "isRateLimitError m2" using assms by blast
  obtain m3 where m3: "fn 3 = Inl m3" using assms by blast
  have s3: "retryLoop fn random 3 base 3 sl = \<lparr> outcome = Inl (Error m3), attempts = 3, delays = sl \<rparr>" for sl
    by (subst retryLoop.simps) (simp add: m3 del: retryLoop.simps)
  have s2: "retryLoop fn random 3 base 2 sl = retryLoop fn random 3 base 3 (sl @ [base * 2 ^ 1 + random 2 * 1000])" for sl
    by (subst retryLoop.simps) (simp add: m2 del: retryLoop.simps)
  have s1: "retryLoop fn random 3 base 1 sl = retryLoop fn random 3 base 2 (sl @ [base * 2 ^ 0 + random 1 * 1000])" for sl
    by (subst retryLoop.simps) (simp add: m1 [simplified] numeral_2_eq_2 del: retryLoop.simps)
  show ?thesis
    unfolding retryWithBackoff_def s1 s2 s3 using m3 by simp
qed

lemma retryLoop_not_throttled:
  assumes "fn 1 = Inl m" "\<not> isRateLimitError m" "1 \<le> maxRetries"
  shows "retryWithBackoff fn random maxRetries base =
           \<lparr> outcome = Inl (Error m), attempts = 1, delays = [] \<rparr>"
  unfolding retryWithBackoff_def using assms
  by (subst retryLoop.simps) (auto simp del: retryLoop.simps)

lemma analyze_livePath:
  assumes "livePath js e text d svc"
  shows "analyzeTextEmotion js e generateContent random text ts d svc =
    Inr \<lparr> returned =
            (case returned (tryLive js generateContent random text ts d svc) of
               Inl err \<Rightarrow> fallbackTextAnalysis text ts d
             | Inr emotionData \<Rightarrow> emotionData),
          service_after = service_after (tryLive js generateContent random text ts d svc),
          liveAttempts = liveAttempts (tryLive js generateContent random text ts d svc),
          backoffDelays = backoffDelays (tryLive js generateContent random text ts d svc) \<rparr>"
  using assms by (simp add: analyzeTextEmotion_def livePath_def Let_def)



section \<open>The dispatcher: proofs\<close>

lemma sample_key: "cacheKey (sample_runtime reply obj) sample_text 0 = str ''i am fine today_0''"
  by (simp add: cacheKey_def sample_runtime_def sample_text_def trim_def isWhiteSpace_def
        toLowerCase_def lower_unit_def str_def)

lemma sample_trim: "length (trim sample_text) = 15"
  by (simp add: sample_text_def trim_def isWhiteSpace_def str_def)

lemma sample_livePath: "livePath (sample_runtime reply obj) live_env sample_text 0 initial_service"
  by (simp add: livePath_def sample_trim fallbackOnly_def apiKeyMissing_def live_env_def
        initial_service_def Map_get_def str_def)




lemma analyze_returns: "\<exists>t. analyzeTextEmotion js e generateContent random text ts d svc = Inr t"
  by (simp add: analyzeTextEmotion_def Let_def split: option.splits)

lemma tryLive_no_reply:
  "liveReply js generateContent random = None \<Longrightarrow>
   \<exists>err. returned (tryLive js generateContent random text ts d svc) = Inl err"
  by (auto simp: liveReply_def tryLive_def Let_def split: sum.splits option.splits)

lemma no_reply_throttled:
  assumes "\<forall>k. \<exists>m. generateContent k = Inl m \<and> isRateLimitError m"
  shows "liveReply js generateContent random = None"
proof -
  obtain m where "outcome (retryWithBackoff generateContent random MAX_RETRIES 2000) = Inl (Error m)"
    unfolding MAX_RETRIES_def
    using retryLoop_throttled_3 [OF assms, of random 2000] by auto
  then show ?thesis by (simp add: liveReply_def)
qed

lemma no_reply_not_throttled:
  assumes "generateContent 1 = Inl m" "\<not> isRateLimitError m"
  shows "liveReply js generateContent random = None"
proof -
  have "retryWithBackoff generateContent random MAX_RETRIES 2000 =
           \<lparr> outcome = Inl (Error m), attempts = 1, delays = [] \<rparr>"
    using assms by (intro retryLoop_not_throttled) (simp_all add: MAX_RETRIES_def)
  then show ?thesis by (simp add: liveReply_def)
qed

lemma retry_first_reply:
  assumes "fn 1 = Inr reply" "1 \<le> maxRetries"
  shows "retryWithBackoff fn random maxRetries base =
           \<lparr> outcome = Inr reply, attempts = 1, delays = [] \<rparr>"
  unfolding retryWithBackoff_def using assms
  by (subst retryLoop.simps) (auto simp del: retryLoop.simps)

lemma no_reply_unparseable:
  assumes "generateContent 1 = Inr reply"
    and "jsonMatch reply = None \<or> (\<exists>matched. jsonMatch reply = Some matched \<and> JSON_parse js matched = None)"
  shows "liveReply js generateContent random = None"
proof -
  have "retryWithBackoff generateContent random MAX_RETRIES 2000 =
           \<lparr> outcome = Inr reply, attempts = 1, delays = [] \<rparr>"
    using assms(1) by (intro retry_first_reply) (simp_all add: MAX_RETRIES_def)
  then show ?thesis using assms(2) by (auto simp: liveReply_def)
qed

text \<open>
  Claim C2. The promise of \<open>analyzeTextEmotion\<close> never rejects. On the live path, when
  the live call yields no parsed reply, the record returned is the one of the fallback
  classifier for the same text, timestamp and duration; and the live call yields no
  parsed reply when every call is throttled, when the first call fails with an error that
  is not throttled (authentication, network), and when the first reply has no braces to
  match or its match does not parse.
\<close>

theorem never_throws:
  "(\<exists>t. analyzeTextEmotion js e generateContent random text ts d svc = Inr t)
   \<and> (livePath js e text d svc \<and> liveReply js generateContent random = None
      \<longrightarrow> (\<exists>t. analyzeTextEmotion js e generateContent random text ts d svc = Inr t
              \<and> returned t = fallbackTextAnalysis text ts d))
   \<and> ((\<forall>k. \<exists>m. generateContent k = Inl m \<and> isRateLimitError m)
      \<longrightarrow> liveReply js generateContent random = None)
   \<and> ((\<exists>m. generateContent 1 = Inl m \<and> \<not> isRateLimitError m)
      \<longrightarrow> liveReply js generateContent random = None)
   \<and> ((\<exists>reply. generateContent 1 = Inr reply
          \<and> (jsonMatch reply = None
              \<or> (\<exists>matched. jsonMatch reply = Some matched \<and> JSON_parse js matched = None)))
      \<longrightarrow> liveReply js generateContent random = None)"
proof (intro conjI impI)
  show "\<exists>t. analyzeTextEmotion js e generateContent random text ts d svc = Inr t"
    by (rule analyze_returns)
next
  assume h: "livePath js e text d svc \<and> liveReply js generateContent random = None"
  then obtain err where "returned (tryLive js generateContent random text ts d svc) = Inl err"
    using tryLive_no_reply by blast
  then show "\<exists>t. analyzeTextEmotion js e generateContent random text ts d svc = Inr t
              \<and> returned t = fallbackTextAnalysis text ts d"
    using h by (simp add: analyze_livePath)
next
  assume "\<forall>k. \<exists>m. generateContent k = Inl m \<and> isRateLimitError m"
  then show "liveReply js generateContent random = None" by (rule no_reply_throttled)
next
  assume "\<exists>m. generateContent 1 = Inl m \<and> \<not> isRateLimitError m"
  then show "liveReply js generateContent random = None" using no_reply_not_throttled by blast
next
  assume "\<exists>reply. generateContent 1 = Inr reply
          \<and> (jsonMatch reply = None
              \<or> (\<exists>matched. jsonMatch reply = Some matched \<and> JSON_parse js matched = None))"
  then show "liveReply js generateContent random = None" using no_reply_unparseable by blast
qed

text \<open>A reply without braces.\<close>

theorem never_throws_witness:
  "liveReply (sample_runtime [] Map.empty) (\<lambda>k. Inr (str ''I cannot help with that.'')) (\<lambda>k. 0) = None
   \<and> (\<exists>t. analyzeTextEmotion (sample_runtime [] Map.empty) live_env
             (\<lambda>k. Inr (str ''I cannot help with that.'')) (\<lambda>k. 0) sample_text 0 0 initial_service = Inr t
          \<and> returned t = fallbackTextAnalysis sample_text 0 0)"
proof -
  have "jsonMatch (str ''I cannot help with that.'') = None"
    by (simp add: jsonMatch_def str_def)
  then show ?thesis
    using never_throws [of "sample_runtime [] Map.empty" live_env
        "\<lambda>k. Inr (str ''I cannot help with that.'')" "\<lambda>k. 0" sample_text 0 0 initial_service]
      sample_livePath [of "[]" Map.empty]
    by auto
qed

lemma analyze_live_reply:
  assumes "livePath js e text d svc" "liveReply js generateContent random = Some analysis"
  shows "\<exists>t. analyzeTextEmotion js e generateContent random text ts d svc = Inr t
           \<and> returned t = buildEmotionData js analysis ts d
           \<and> liveAttempts t = attempts (retryWithBackoff generateContent random MAX_RETRIES 2000)"
  using assms
  by (auto simp: analyze_livePath liveReply_def tryLive_def Let_def split: sum.splits option.splits)

lemma sample_liveReply:
  assumes "jsonMatch reply = Some reply"
  shows "liveReply (sample_runtime reply obj) (\<lambda>k. Inr reply) random = Some obj"
proof -
  have "retryWithBackoff (\<lambda>k. Inr reply) random MAX_RETRIES 2000 =
           \<lparr> outcome = Inr reply, attempts = 1, delays = [] \<rparr>"
    by (intro retry_first_reply) (simp_all add: MAX_RETRIES_def)
  then show ?thesis using assms by (simp add: liveReply_def sample_runtime_def)
qed

lemma sample_analyze:
  assumes "jsonMatch reply = Some reply"
  shows "\<exists>t. analyzeTextEmotion (sample_runtime reply obj) live_env (\<lambda>k. Inr reply) random
                sample_text ts 0 initial_service = Inr t
           \<and> returned t = buildEmotionData (sample_runtime reply obj) obj ts 0"
  using analyze_live_reply [OF sample_livePath sample_liveReply [OF assms]] by blast

text \<open>
  Claim C1, at a live reply that carries \<open>"stress_level": 5\<close>: the record returned
  has stress level 5, outside [0, 1]. Only the confidence goes through
  \<open>Math.min\<close> and \<open>Math.max\<close>.
\<close>

theorem live_metric_unclamped:
  "\<exists>t. analyzeTextEmotion
          (sample_runtime (str ''{'' @ quoted ''stress_level'' @ str '':5}'')
             [str ''stress_level'' \<mapsto> JNumber (Num 5)])
          live_env (\<lambda>k. Inr (str ''{'' @ quoted ''stress_level'' @ str '':5}'')) (\<lambda>k. 0)
          sample_text 0 0 initial_service = Inr t
       \<and> stress_level (additionalMetrics (returned t)) = JNumber (Num 5)"
proof -
  have "jsonMatch (str ''{'' @ quoted ''stress_level'' @ str '':5}'')
          = Some (str ''{'' @ quoted ''stress_level'' @ str '':5}'')"
    by (simp add: jsonMatch_def str_def quoted_def)
  from sample_analyze [OF this, where obj = "[str ''stress_level'' \<mapsto> JNumber (Num 5)]"
      and random = "\<lambda>k. 0" and ts = 0]
  show ?thesis
    by (auto simp: buildEmotionData_def property_def js_or_def)
qed

text \<open>
  Against claim C10 as stated: a live reply that carries \<open>"confidence": -1\<close> gives a
  record whose confidence is exactly 0, since a negative number is truthy and is then
  clamped.
\<close>

theorem live_confidence_zero:
  "\<exists>t. analyzeTextEmotion
          (sample_runtime (str ''{'' @ quoted ''confidence'' @ str '':-1}'')
             [str ''confidence'' \<mapsto> JNumber (Num (- 1))])
          live_env (\<lambda>k. Inr (str ''{'' @ quoted ''confidence'' @ str '':-1}'')) (\<lambda>k. 0)
          sample_text 0 0 initial_service = Inr t
       \<and> confidence (returned t) = Num 0"
proof -
  have "jsonMatch (str ''{'' @ quoted ''confidence'' @ str '':-1}'')
          = Some (str ''{'' @ quoted ''confidence'' @ str '':-1}'')"
    by (simp add: jsonMatch_def str_def quoted_def)
  from sample_analyze [OF this, where obj = "[str ''confidence'' \<mapsto> JNumber (Num (- 1))]"
      and random = "\<lambda>k. 0" and ts = 0]
  show ?thesis
    by (auto simp: buildEmotionData_def property_def js_or_def)
qed

lemma js_or_zero: "js_or (JNumber (Num 0)) v = v"
  by (simp add: js_or_def)

lemma js_or_default_nonzero: "js_or v (JNumber (Num (1 / 2))) \<noteq> JNumber (Num 0)"
  by (cases v rule: truthy.cases) (auto simp: js_or_def)

lemma clamp_zero_iff:
  "(Math_min (Math_max (ToNumber js (js_or v (JNumber (Num 0.5)))) (Num 0)) (Num 1) = Num 0)
     = (truthy v \<and> (\<exists>x. ToNumber js v = Num x \<and> x \<le> 0))"
proof (cases "truthy v")
  case False
  then show ?thesis by (simp add: js_or_def)
next
  case True
  show ?thesis
  proof (cases "ToNumber js v")
    case NaN
    then show ?thesis using True by (simp add: js_or_def)
  next
    case (Num x)
    then show ?thesis using True by (auto simp: js_or_def max_def min_def)
  qed
qed

text \<open>
  Claim C10, amended. On the live path the record returned is built from the parsed
  reply. A confidence, stress level, energy level or voice stability that the reply
  carries as 0 becomes 0.5; no metric of a record so built is the number 0; and its
  confidence is 0 exactly when the reply's confidence is truthy and converts to a number
  that is at most 0.
\<close>

theorem falsy_defaults:
  "(livePath js e text d svc \<and> liveReply js generateContent random = Some analysis
      \<longrightarrow> (\<exists>t. analyzeTextEmotion js e generateContent random text ts d svc = Inr t
              \<and> returned t = buildEmotionData js analysis ts d))
   \<and> (property analysis ''confidence'' = JNumber (Num 0)
      \<longrightarrow> confidence (buildEmotionData js analysis ts d) = Num 0.5)
   \<and> (property analysis ''stress_level'' = JNumber (Num 0)
      \<longrightarrow> stress_level (additionalMetrics (buildEmotionData js analysis ts d)) = JNumber (Num 0.5))
   \<and> (property analysis ''energy_level'' = JNumber (Num 0)
      \<longrightarrow> energy_level (additionalMetrics (buildEmotionData js analysis ts d)) = JNumber (Num 0.5))
   \<and> (property analysis ''voice_stability'' = JNumber (Num 0)
      \<longrightarrow> voice_stability (additionalMetrics (buildEmotionData js analysis ts d)) = JNumber (Num 0.5))
   \<and> stress_level (additionalMetrics (buildEmotionData js analysis ts d)) \<noteq> JNumber (Num 0)
   \<and> energy_level (additionalMetrics (buildEmotionData js analysis ts d)) \<noteq> JNumber (Num 0)
   \<and> voice_stability (additionalMetrics (buildEmotionData js analysis ts d)) \<noteq> JNumber (Num 0)
   \<and> (confidence (buildEmotionData js analysis ts d) = Num 0)
       = (truthy (property analysis ''confidence'')
          \<and> (\<exists>x. ToNumber js (property analysis ''confidence'') = Num x \<and> x \<le> 0))"
proof (intro conjI impI)
  assume "livePath js e text d svc \<and> liveReply js generateContent random = Some analysis"
  then show "\<exists>t. analyzeTextEmotion js e generateContent random text ts d svc = Inr t
              \<and> returned t = buildEmotionData js analysis ts d"
    using analyze_live_reply by blast
next
  show "(confidence (buildEmotionData js analysis ts d) = Num 0)
       = (truthy (property analysis ''confidence'')
          \<and> (\<exists>x. ToNumber js (property analysis ''confidence'') = Num x \<and> x \<le> 0))"
    using clamp_zero_iff [of js "property analysis ''confidence''"]
    by (simp add: buildEmotionData_def)
qed (simp_all add: buildEmotionData_def js_or_zero js_or_default_nonzero)

text \<open>A reply that carries confidence 0 and stress level 0.\<close>

theorem falsy_defaults_witness:
  "\<exists>t. analyzeTextEmotion
          (sample_runtime
             (str ''{'' @ quoted ''confidence'' @ str '':0,'' @ quoted ''stress_level'' @ str '':0}'')
             [str ''confidence'' \<mapsto> JNumber (Num 0), str ''stress_level'' \<mapsto> JNumber (Num 0)])
          live_env
          (\<lambda>k. Inr (str ''{'' @ quoted ''confidence'' @ str '':0,'' @ quoted ''stress_level'' @ str '':0}''))
          (\<lambda>k. 0) sample_text 0 0 initial_service = Inr t
       \<and> confidence (returned t) = Num 0.5
       \<and> stress_level (additionalMetrics (returned t)) = JNumber (Num 0.5)"
proof -
  let ?reply = "str ''{'' @ quoted ''confidence'' @ str '':0,'' @ quoted ''stress_level'' @ str '':0}''"
  let ?obj = "[str ''confidence'' \<mapsto> JNumber (Num 0), str ''stress_level'' \<mapsto> JNumber (Num 0)]"
  have m: "jsonMatch ?reply = Some ?reply"
    by (simp add: jsonMatch_def str_def quoted_def)
  have p: "property ?obj ''confidence'' = JNumber (Num 0)"
    "property ?obj ''stress_level'' = JNumber (Num 0)"
    by (simp_all add: property_def str_def)
  show ?thesis
    using falsy_defaults [of "sample_runtime ?reply ?obj" live_env sample_text 0 initial_service
        "\<lambda>k. Inr ?reply" "\<lambda>k. 0" ?obj 0]
      sample_livePath [of ?reply ?obj] sample_liveReply [OF m, of ?obj "\<lambda>k. 0"] p
    by auto
qed

section \<open>The result cache: proofs\<close>

lemma Map_set_keys:
  "map fst (Map_set k v m) = (if k \<in> set (map fst m) then map fst m else map fst m @ [k])"
  by (induction m) auto

lemma Map_set_fresh: "k \<notin> set (map fst m) \<Longrightarrow> Map_set k v m = m @ [(k, v)]"
  by (induction m) auto

lemma Map_set_length: "length (Map_set k v m) = (if k \<in> set (map fst m) then length m else Suc (length m))"
  by (induction m) auto

lemma Map_delete_keys: "map fst (Map_delete k m) = filter (\<lambda>x. x \<noteq> k) (map fst m)"
  by (simp add: Map_delete_def filter_map comp_def)

lemma Map_set_keys_subset: "set (map fst (Map_set k v m)) \<subseteq> insert k (set (map fst m))"
  by (simp add: Map_set_keys subset_insertI)

lemma Map_delete_first:
  assumes "distinct (map fst (e # m))"
  shows "Map_delete (fst e) (e # m) = m"
proof -
  have "fst e \<notin> set (map fst m)" using assms by simp
  then have "\<forall>x \<in> set m. fst x \<noteq> fst e" by (metis imageI set_map)
  then show ?thesis by (simp add: Map_delete_def filter_id_conv)
qed

lemma cacheKey_nonempty: "cacheKey js t d \<noteq> []"
  by (simp add: cacheKey_def str_def)

lemma cacheStore_cases:
  "cacheStore k v c = Map_set k v c \<or> (\<exists>x. cacheStore k v c = Map_delete x (Map_set k v c))"
  by (auto simp: cacheStore_def Let_def split: list.splits)

lemma Map_delete_keys_subset: "set (map fst (Map_delete x m)) \<subseteq> set (map fst m)"
  by (simp add: Map_delete_keys)

lemma cacheStore_keys_subset:
  "set (map fst (cacheStore k v c)) \<subseteq> insert k (set (map fst c))"
proof -
  consider "cacheStore k v c = Map_set k v c"
    | x where "cacheStore k v c = Map_delete x (Map_set k v c)"
    using cacheStore_cases [of k v c] by blast
  then show ?thesis
  proof cases
    case 1
    then show ?thesis using Map_set_keys_subset [of k v c] by simp
  next
    case 2
    then show ?thesis
      using Map_set_keys_subset [of k v c] Map_delete_keys_subset [of x "Map_set k v c"]
      by auto
  qed
qed

lemma Map_set_distinct: "distinct (map fst m) \<Longrightarrow> distinct (map fst (Map_set k v m))"
  by (simp add: Map_set_keys)

lemma Map_delete_distinct: "distinct (map fst m) \<Longrightarrow> distinct (map fst (Map_delete x m))"
  by (simp add: Map_delete_keys)

lemma cacheStore_distinct:
  assumes "distinct (map fst c)"
  shows "distinct (map fst (cacheStore k v c))"
proof -
  consider "cacheStore k v c = Map_set k v c"
    | x where "cacheStore k v c = Map_delete x (Map_set k v c)"
    using cacheStore_cases [of k v c] by blast
  then show ?thesis
  proof cases
    case 1
    then show ?thesis using Map_set_distinct [OF assms] by simp
  next
    case 2
    then show ?thesis using Map_delete_distinct [OF Map_set_distinct [OF assms]] by simp
  qed
qed

lemma cacheStore_length:
  assumes "length c \<le> 100" "[] \<notin> set (map fst c)" "k \<noteq> []"
  shows "length (cacheStore k v c) \<le> 100"
proof (cases "length (Map_set k v c) > 100")
  case False
  then show ?thesis by (simp add: cacheStore_def Let_def)
next
  case True
  then obtain e m where em: "Map_set k v c = e # m" by (cases "Map_set k v c") auto
  have "fst e \<in> set (map fst (Map_set k v c))" by (simp add: em)
  then have "fst e \<in> insert k (set (map fst c))"
    using Map_set_keys_subset [of k v c] by blast
  then have "fst e \<noteq> []" using assms(2,3) by (metis insertE)
  then have "cacheStore k v c = Map_delete (fst e) (e # m)"
    using True by (simp add: cacheStore_def Let_def em)
  also have "length \<dots> \<le> length m"
    by (simp add: Map_delete_def)
  finally have "length (cacheStore k v c) \<le> length m" .
  moreover have "length (Map_set k v c) \<le> Suc (length c)" by (simp add: Map_set_length)
  ultimately show ?thesis using assms(1) em by simp
qed

lemma cacheStore_evicts:
  assumes "length c = 100" "distinct (map fst c)" "[] \<notin> set (map fst c)"
    "k \<notin> set (map fst c)" "k \<noteq> []"
  shows "cacheStore k v c = tl c @ [(k, v)]"
proof -
  obtain e m where c: "c = e # m" using assms(1) by (cases c) auto
  have s: "Map_set k v c = e # m @ [(k, v)]"
    using Map_set_fresh [OF assms(4), of v] unfolding c by (simp only: append_Cons)
  have d: "distinct (map fst (e # m @ [(k, v)]))" using assms(2,4) by (auto simp: c)
  have len: "length m = 99" using assms(1) by (simp add: c)
  have "fst e \<in> set (map fst c)" by (simp add: c)
  then have "fst e \<noteq> []" using assms(3) by metis
  then have "cacheStore k v c = Map_delete (fst e) (e # m @ [(k, v)])"
    unfolding cacheStore_def Let_def s using len by simp
  also have "\<dots> = m @ [(k, v)]" using d by (rule Map_delete_first)
  finally show ?thesis by (simp add: c)
qed

lemma cacheStore_inv:
  assumes "cache_inv js c" "10 \<le> length (trim t)"
  shows "cache_inv js (cacheStore (cacheKey js t d) v c)"
proof -
  have len: "length c \<le> 100" and dist: "distinct (map fst c)"
    and keys: "\<forall>k \<in> set (map fst c). \<exists>t d. k = cacheKey js t d \<and> 10 \<le> length (trim t)"
    using assms(1) unfolding cache_inv_def by blast+
  have ne: "[] \<notin> set (map fst c)"
  proof
    assume "[] \<in> set (map fst c)"
    then obtain t' d' where "[] = cacheKey js t' d'" using keys by blast
    then show False using cacheKey_nonempty by metis
  qed
  have 1: "length (cacheStore (cacheKey js t d) v c) \<le> 100"
    using len ne cacheKey_nonempty by (rule cacheStore_length)
  have 2: "distinct (map fst (cacheStore (cacheKey js t d) v c))"
    using dist by (rule cacheStore_distinct)
  have 3: "\<forall>k \<in> set (map fst (cacheStore (cacheKey js t d) v c)).
                   \<exists>t' d'. k = cacheKey js t' d' \<and> 10 \<le> length (trim t')"
  proof
    fix k assume "k \<in> set (map fst (cacheStore (cacheKey js t d) v c))"
    then have "k \<in> insert (cacheKey js t d) (set (map fst c))"
      using cacheStore_keys_subset [of "cacheKey js t d" v c] by blast
    then consider "k = cacheKey js t d" | "k \<in> set (map fst c)" by blast
    then show "\<exists>t' d'. k = cacheKey js t' d' \<and> 10 \<le> length (trim t')"
    proof cases
      case 1
      then show ?thesis using assms(2) by blast
    next
      case 2
      then show ?thesis using keys by blast
    qed
  qed
  show ?thesis unfolding cache_inv_def using 1 2 3 by blast
qed

lemma analyze_cache:
  assumes "analyzeTextEmotion js e generateContent random text ts d svc = Inr t"
  shows "emotionCache (service_after t) = emotionCache svc
         \<or> (10 \<le> length (trim text)
            \<and> (\<exists>v. emotionCache (service_after t) = cacheStore (cacheKey js text d) v (emotionCache svc)))"
  using assms
  by (auto simp: analyzeTextEmotion_def tryLive_def Let_def split: if_splits option.splits sum.splits)

lemma reachable_cache_inv: "reachable js svc \<Longrightarrow> cache_inv js (emotionCache svc)"
proof (induction rule: reachable.induct)
  case fresh
  then show ?case by (simp add: cache_inv_def initial_service_def)
next
  case (call svc e gen rnd utt ts dur t)
  then show ?case using analyze_cache [OF call.hyps(2)] cacheStore_inv by auto
qed

lemma analyze_live_cache:
  assumes "livePath js e text d svc" "liveReply js generateContent random = Some analysis"
  shows "\<exists>t. analyzeTextEmotion js e generateContent random text ts d svc = Inr t
           \<and> emotionCache (service_after t) =
               cacheStore (cacheKey js text d) (cacheable (buildEmotionData js analysis ts d))
                 (emotionCache svc)"
  using assms
  by (auto simp: analyze_livePath liveReply_def tryLive_def Let_def split: sum.splits option.splits)

lemma analyze_cache_hit:
  assumes "\<not> fallbackOnly e" "\<not> apiKeyMissing e"
    "Map_get (emotionCache svc) (cacheKey js text d) = Some cached"
  shows "analyzeTextEmotion js e generateContent random text ts d svc =
           Inr \<lparr> returned = fromCache cached ts, service_after = svc,
                 liveAttempts = 0, backoffDelays = [] \<rparr>"
  using assms by (simp add: analyzeTextEmotion_def Let_def)

text \<open>
  Claim C6. In every state the service can reach, the cache holds at most 100 entries,
  under distinct keys. Storing a new, non-empty key in a cache of 100 entries with
  distinct non-empty keys removes the oldest entry and no other and appends the new one.
  A successful live call stores its record in this way, and a cache hit returns the
  cached record and leaves the service, and so the order of the cache, as it was.
\<close>

theorem cache_fifo:
  "(reachable js svc
      \<longrightarrow> length (emotionCache svc) \<le> 100 \<and> distinct (map fst (emotionCache svc)))
   \<and> (length c = 100 \<and> distinct (map fst c) \<and> [] \<notin> set (map fst c)
        \<and> key \<notin> set (map fst c) \<and> key \<noteq> []
      \<longrightarrow> cacheStore key v c = tl c @ [(key, v)])
   \<and> (livePath js e text d svc \<and> liveReply js generateContent random = Some analysis
      \<longrightarrow> (\<exists>t. analyzeTextEmotion js e generateContent random text ts d svc = Inr t
              \<and> emotionCache (service_after t) =
                  cacheStore (cacheKey js text d) (cacheable (buildEmotionData js analysis ts d))
                    (emotionCache svc)))
   \<and> (\<not> fallbackOnly e \<and> \<not> apiKeyMissing e
        \<and> Map_get (emotionCache svc) (cacheKey js text d) = Some cached
      \<longrightarrow> (\<exists>t. analyzeTextEmotion js e generateContent random text ts d svc = Inr t
              \<and> returned t = fromCache cached ts \<and> service_after t = svc))"
proof (intro conjI impI)
  assume "reachable js svc"
  then have "cache_inv js (emotionCache svc)" by (rule reachable_cache_inv)
  then show "length (emotionCache svc) \<le> 100" "distinct (map fst (emotionCache svc))"
    unfolding cache_inv_def by blast+
next
  assume "length c = 100 \<and> distinct (map fst c) \<and> [] \<notin> set (map fst c)
        \<and> key \<notin> set (map fst c) \<and> key \<noteq> []"
  then show "cacheStore key v c = tl c @ [(key, v)]"
    using cacheStore_evicts by blast
next
  assume "livePath js e text d svc \<and> liveReply js generateContent random = Some analysis"
  then show "\<exists>t. analyzeTextEmotion js e generateContent random text ts d svc = Inr t
              \<and> emotionCache (service_after t) =
                  cacheStore (cacheKey js text d) (cacheable (buildEmotionData js analysis ts d))
                    (emotionCache svc)"
    using analyze_live_cache by blast
next
  assume "\<not> fallbackOnly e \<and> \<not> apiKeyMissing e
        \<and> Map_get (emotionCache svc) (cacheKey js text d) = Some cached"
  then show "\<exists>t. analyzeTextEmotion js e generateContent random text ts d svc = Inr t
              \<and> returned t = fromCache cached ts \<and> service_after t = svc"
    using analyze_cache_hit [of e svc js "text" d cached generateContent random ts] by simp
qed

lemma sample_cache_keys: "map fst sample_cache = map (\<lambda>i. [int i]) [1 ..< 101]"
  by (simp add: sample_cache_def comp_def)

lemma sample_cache_facts:
  "length sample_cache = 100" "distinct (map fst sample_cache)"
  "[] \<notin> set (map fst sample_cache)" "[0] \<notin> set (map fst sample_cache)"
proof -
  show "length sample_cache = 100" by (simp add: sample_cache_def)
  show "distinct (map fst sample_cache)"
    unfolding sample_cache_keys by (simp add: distinct_map inj_on_def)
  show "[] \<notin> set (map fst sample_cache)"
    unfolding sample_cache_keys by auto
  show "[0] \<notin> set (map fst sample_cache)"
    unfolding sample_cache_keys by auto
qed

text \<open>The fresh service, and the key [0] stored in the cache of 100 entries.\<close>

theorem cache_fifo_witness:
  "reachable (sample_runtime [] Map.empty) initial_service
   \<and> length (emotionCache initial_service) \<le> 100
   \<and> length sample_cache = 100
   \<and> cacheStore [0] (cacheable (fallbackTextAnalysis [] 0 0)) sample_cache
       = tl sample_cache @ [([0], cacheable (fallbackTextAnalysis [] 0 0))]"
  using cache_fifo [of "sample_runtime [] Map.empty" initial_service sample_cache "[0]"
      "cacheable (fallbackTextAnalysis [] 0 0)"]
    sample_cache_facts reachable.fresh [of "sample_runtime [] Map.empty"]
  by simp

section \<open>The dispatcher: short texts\<close>

lemma lower_unit_length: "1 \<le> length (lower_unit c)"
  by (simp add: lower_unit_def)

lemma toLowerCase_length_ge: "length s \<le> length (toLowerCase s)"
proof (induction s)
  case Nil
  then show ?case by (simp add: toLowerCase_def)
next
  case (Cons c s)
  then show ?case using lower_unit_length [of c] by (simp add: toLowerCase_def)
qed

lemma toLowerCase_length_eq: "304 \<notin> set s \<Longrightarrow> length (toLowerCase s) = length s"
  by (induction s) (auto simp: toLowerCase_def lower_unit_def)

lemma set_trim: "set (trim s) \<subseteq> set s"
proof -
  have "set (trim s) \<subseteq> set (dropWhile isWhiteSpace s)"
    unfolding trim_def using set_dropWhileD [of _ isWhiteSpace "rev (dropWhile isWhiteSpace s)"]
    by auto
  then show ?thesis using set_dropWhileD [of _ isWhiteSpace s] by blast
qed

lemma takeWhile_before_last:
  assumes "x \<notin> set s"
  shows "takeWhile (\<lambda>y. y \<noteq> x) (rev (a @ x # s)) = rev s"
proof -
  have "takeWhile (\<lambda>y. y \<noteq> x) (rev s @ x # rev a) = takeWhile (\<lambda>y. y \<noteq> x) (rev s)"
    by (rule takeWhile_tail) simp
  also have "\<dots> = rev s"
    using assms by auto
  finally show ?thesis by simp
qed

lemma split_at_last:
  assumes "a @ x # s = b @ x # s'" "x \<notin> set s" "x \<notin> set s'"
  shows "a = b \<and> s = s'"
proof -
  have "rev s = takeWhile (\<lambda>y. y \<noteq> x) (rev (a @ x # s))"
    using takeWhile_before_last [OF assms(2)] by simp
  also have "\<dots> = takeWhile (\<lambda>y. y \<noteq> x) (rev (b @ x # s'))"
    by (simp only: assms(1))
  also have "\<dots> = rev s'"
    using takeWhile_before_last [OF assms(3)] by simp
  finally have "s = s'" by simp
  then show ?thesis using assms(1) by simp
qed

lemma cacheKey_same_length:
  assumes "\<forall>x. 95 \<notin> set (Number_toString js x)" "cacheKey js t d = cacheKey js t' d'"
  shows "length (toLowerCase (trim t)) = length (toLowerCase (trim t'))"
proof -
  have "toLowerCase (trim t) @ 95 # Number_toString js d
        = toLowerCase (trim t') @ 95 # Number_toString js d'"
    using assms(2) by (simp add: cacheKey_def str_def)
  then have "toLowerCase (trim t) = toLowerCase (trim t')"
    using split_at_last [of "toLowerCase (trim t)" 95 "Number_toString js d"
        "toLowerCase (trim t')" "Number_toString js d'"] assms(1) by blast
  then show ?thesis by simp
qed

lemma short_text_no_key:
  assumes "cache_inv js c" "\<forall>x. 95 \<notin> set (Number_toString js x)"
    "length (toLowerCase (trim text)) < 10"
  shows "Map_get c (cacheKey js text d) = None"
proof -
  have "cacheKey js text d \<notin> set (map fst c)"
  proof
    assume "cacheKey js text d \<in> set (map fst c)"
    then obtain t' d' where k: "cacheKey js text d = cacheKey js t' d'" "10 \<le> length (trim t')"
      using assms(1) unfolding cache_inv_def by blast
    have "length (toLowerCase (trim text)) = length (toLowerCase (trim t'))"
      using assms(2) k(1) by (rule cacheKey_same_length)
    then show False using assms(3) k(2) toLowerCase_length_ge [of "trim t'"] by simp
  qed
  then show ?thesis by (simp add: Map_get_def map_of_eq_None_iff)
qed

lemma short_text_offline:
  assumes "Map_get (emotionCache svc) (cacheKey js text d) = None" "length (trim text) < 10"
  shows "analyzeTextEmotion js e generateContent random text ts d svc =
           Inr \<lparr> returned = fallbackTextAnalysis text ts d, service_after = svc,
                 liveAttempts = 0, backoffDelays = [] \<rparr>"
  using assms by (simp add: analyzeTextEmotion_def Let_def)

text \<open>
  Claim C9, amended. In every state the service can reach, for every text whose
  trimmed and lower-cased form is under 10 code units, the call returns the record of the
  fallback classifier, calls the live service not once and leaves the service as it was,
  whatever the credential and the fallback-only flag: the cache has no entry under the
  key of such a text, as long as the decimal text of a number has no underscore. A text
  of trimmed length under 10 without U+0130 is such a text, and lower-casing never
  shortens a text.
\<close>

theorem short_text_fallback:
  "(reachable js svc \<and> (\<forall>x. 95 \<notin> set (Number_toString js x))
      \<and> length (toLowerCase (trim text)) < 10
    \<longrightarrow> analyzeTextEmotion js e generateContent random text ts d svc =
          Inr \<lparr> returned = fallbackTextAnalysis text ts d, service_after = svc,
                liveAttempts = 0, backoffDelays = [] \<rparr>)
   \<and> (length (trim text) < 10 \<and> 304 \<notin> set text \<longrightarrow> length (toLowerCase (trim text)) < 10)
   \<and> length (trim text) \<le> length (toLowerCase (trim text))"
proof (intro conjI impI)
  assume h: "reachable js svc \<and> (\<forall>x. 95 \<notin> set (Number_toString js x))
      \<and> length (toLowerCase (trim text)) < 10"
  then have "cache_inv js (emotionCache svc)" using reachable_cache_inv by blast
  then have "Map_get (emotionCache svc) (cacheKey js text d) = None"
    using h by (intro short_text_no_key) simp_all
  moreover have "length (trim text) < 10"
    using h toLowerCase_length_ge [of "trim text"] by simp
  ultimately show "analyzeTextEmotion js e generateContent random text ts d svc =
          Inr \<lparr> returned = fallbackTextAnalysis text ts d, service_after = svc,
                liveAttempts = 0, backoffDelays = [] \<rparr>"
    by (rule short_text_offline)
next
  assume h: "length (trim text) < 10 \<and> 304 \<notin> set text"
  then have "304 \<notin> set (trim text)" using set_trim by blast
  then show "length (toLowerCase (trim text)) < 10"
    using h by (simp add: toLowerCase_length_eq)
next
  show "length (trim text) \<le> length (toLowerCase (trim text))"
    by (rule toLowerCase_length_ge)
qed

text \<open>A text of 5 code units on the fresh service.\<close>

theorem short_text_fallback_witness:
  "reachable (sample_runtime [] Map.empty) initial_service
   \<and> length (toLowerCase (trim (str ''Hello''))) = 5
   \<and> analyzeTextEmotion (sample_runtime [] Map.empty) live_env (\<lambda>k. Inl None) (\<lambda>k. 0)
        (str ''Hello'') 0 0 initial_service =
          Inr \<lparr> returned = fallbackTextAnalysis (str ''Hello'') 0 0, service_after = initial_service,
                liveAttempts = 0, backoffDelays = [] \<rparr>"
proof -
  have l: "length (toLowerCase (trim (str ''Hello''))) = 5"
    by (simp add: trim_def isWhiteSpace_def toLowerCase_def lower_unit_def str_def)
  have n: "\<forall>x. 95 \<notin> set (Number_toString (sample_runtime [] Map.empty) x)"
    by (simp add: sample_runtime_def str_def)
  show ?thesis
    using short_text_fallback [of "sample_runtime [] Map.empty" initial_service "str ''Hello''"
        live_env "\<lambda>k. Inl None" "\<lambda>k. 0" 0 0]
      reachable.fresh [of "sample_runtime [] Map.empty"] l n
    by simp
qed

lemma dotted_keys:
  "cacheKey confident_runtime dotted_text 0 = [105, 775] @ str ''12345678_0''"
  "cacheKey confident_runtime capital_dotted_text 0 = [105, 775] @ str ''12345678_0''"
  by (simp_all add: cacheKey_def confident_runtime_def sample_runtime_def dotted_text_def
        capital_dotted_text_def trim_def isWhiteSpace_def toLowerCase_def lower_unit_def str_def)

lemma dotted_lengths:
  "length (trim dotted_text) = 10" "length (trim capital_dotted_text) = 9"
  by (simp_all add: dotted_text_def capital_dotted_text_def trim_def isWhiteSpace_def str_def)

lemma live_env_on: "\<not> fallbackOnly live_env" "\<not> apiKeyMissing live_env"
  by (simp_all add: fallbackOnly_def apiKeyMissing_def live_env_def str_def)

lemma dotted_first_call:
  "\<exists>t. analyzeTextEmotion confident_runtime live_env (\<lambda>k. Inr confident_reply) (\<lambda>k. 0)
          dotted_text 0 0 initial_service = Inr t
       \<and> emotionCache (service_after t) =
           [([105, 775] @ str ''12345678_0'',
             cacheable (buildEmotionData confident_runtime
                          [str ''confidence'' \<mapsto> JNumber (Num 0.9)] 0 0))]"
proof -
  have lp: "livePath confident_runtime live_env dotted_text 0 initial_service"
    by (simp add: livePath_def live_env_on dotted_lengths initial_service_def Map_get_def)
  have "jsonMatch confident_reply = Some confident_reply"
    by (simp add: confident_reply_def jsonMatch_def str_def quoted_def)
  then have lr: "liveReply confident_runtime (\<lambda>k. Inr confident_reply) (\<lambda>k. 0)
                   = Some [str ''confidence'' \<mapsto> JNumber (Num 0.9)]"
    unfolding confident_runtime_def by (rule sample_liveReply)
  show ?thesis
    using analyze_live_cache [OF lp lr, of 0]
    by (simp add: dotted_keys initial_service_def cacheStore_def)
qed

lemma capital_dotted_fallback:
  "confidence (fallbackTextAnalysis capital_dotted_text 0 0) = Num 0.3"
proof -
  have "detectEmotion (toLowerCase capital_dotted_text) = (0, str ''neutral'')"
    by (simp add: detectEmotion_def emotionPatterns_def scoreStep_def keywordScore_def
          capital_dotted_text_def toLowerCase_def lower_unit_def str_def)
  moreover have "wordCount capital_dotted_text = 1"
    by (simp add: wordCount_def capital_dotted_text_def str_def)
  ultimately show ?thesis by (simp add: fallback_fields)
qed

text \<open>
  Against claim C9 as stated: after a live call on the first text has been cached, the
  call on the second text, whose trimmed length is 9, finds the cache entry of the first
  under its own key and returns the cached record (confidence 0.9), not the record of
  the fallback classifier (confidence 0.3). No live call is issued.
\<close>

theorem short_text_cache_hit:
  "\<exists>t1 t2.
     analyzeTextEmotion confident_runtime live_env (\<lambda>k. Inr confident_reply) (\<lambda>k. 0)
       dotted_text 0 0 initial_service = Inr t1
     \<and> analyzeTextEmotion confident_runtime live_env (\<lambda>k. Inr confident_reply) (\<lambda>k. 0)
         capital_dotted_text 0 0 (service_after t1) = Inr t2
     \<and> length (trim capital_dotted_text) = 9
     \<and> liveAttempts t2 = 0
     \<and> confidence (returned t2) = Num 0.9
     \<and> confidence (fallbackTextAnalysis capital_dotted_text 0 0) = Num 0.3"
proof -
  obtain t1 where t1:
    "analyzeTextEmotion confident_runtime live_env (\<lambda>k. Inr confident_reply) (\<lambda>k. 0)
       dotted_text 0 0 initial_service = Inr t1"
    "emotionCache (service_after t1) =
       [([105, 775] @ str ''12345678_0'',
         cacheable (buildEmotionData confident_runtime
                      [str ''confidence'' \<mapsto> JNumber (Num 0.9)] 0 0))]"
    using dotted_first_call by blast
  have hit: "Map_get (emotionCache (service_after t1))
               (cacheKey confident_runtime capital_dotted_text 0)
             = Some (cacheable (buildEmotionData confident_runtime
                          [str ''confidence'' \<mapsto> JNumber (Num 0.9)] 0 0))"
    by (simp add: t1(2) dotted_keys Map_get_def)
  have t2: "analyzeTextEmotion confident_runtime live_env (\<lambda>k. Inr confident_reply) (\<lambda>k. 0)
         capital_dotted_text 0 0 (service_after t1)
       = Inr \<lparr> returned = fromCache (cacheable (buildEmotionData confident_runtime
                          [str ''confidence'' \<mapsto> JNumber (Num 0.9)] 0 0)) 0,
               service_after = service_after t1, liveAttempts = 0, backoffDelays = [] \<rparr>"
    using live_env_on hit by (rule analyze_cache_hit)
  have c: "confidence (fromCache (cacheable (buildEmotionData confident_runtime
                          [str ''confidence'' \<mapsto> JNumber (Num 0.9)] 0 0)) 0) = Num 0.9"
    by (simp add: fromCache_def cacheable_def buildEmotionData_def property_def js_or_def)
  show ?thesis
    using t1(1) t2 c dotted_lengths(2) capital_dotted_fallback by simp
qed

section \<open>The session aggregator: trend\<close>









section \<open>The session aggregator: most frequent emotion\<close>

text \<open>
  Against claim C4 as stated: in the session confident, nervous, nervous, confident
  both labels occur twice; nervous is the first to reach the count 2 during the scan of
  the records, and the code answers confident, the label that occurs first.
\<close>

theorem tie_break_differs:
  "mostFrequentEmotion tied_session = Inr (JStr (str ''confident''))
   \<and> firstToReachMax tied_session = JStr (str ''nervous'')"
  by (simp add: mostFrequentEmotion_def emotionCounts_def tied_session_def labelled_def
        firstToReachMax_def Map_get_def str_def)

lemma set_firsts: "set (firsts xs) = set xs"
  by (induction xs) auto

lemma distinct_firsts: "distinct (firsts xs)"
  by (induction xs) (auto simp: set_firsts)

lemma find_filter_weaker:
  "(\<And>y. P y \<Longrightarrow> Q y) \<Longrightarrow> find P (filter Q xs) = find P xs"
  by (induction xs) auto

lemma find_firsts: "find P (firsts xs) = find P xs"
proof (induction xs)
  case Nil
  then show ?case by simp
next
  case (Cons x xs)
  show ?case
  proof (cases "P x")
    case True
    then show ?thesis by simp
  next
    case False
    then have "find P (filter (\<lambda>y. y \<noteq> x) (firsts xs)) = find P (firsts xs)"
      by (intro find_filter_weaker) auto
    then show ?thesis using False Cons.IH by simp
  qed
qed

lemma Map_set_table:
  "distinct ks \<Longrightarrow>
   Map_set l v (map (\<lambda>x. (x, c x)) ks) =
     map (\<lambda>x. (x, (c(l := v)) x)) (if l \<in> set ks then ks else ks @ [l])"
  by (induction ks) auto

lemma Map_get_table:
  "Map_get (map (\<lambda>x. (x, c x)) ks) l = (if l \<in> set ks then Some (c l) else None)"
  by (induction ks) (auto simp: Map_get_def)

lemma occurrences_Cons:
  "occurrences (e # es) x = (if emotion e = x then 1 else 0) + occurrences es x"
  by (simp add: occurrences_def)

lemma counts_fold:
  assumes "distinct ks" "\<forall>x. x \<notin> set ks \<longrightarrow> c x = 0"
  shows "foldl (\<lambda>acc e. Map_set (emotion e)
                   ((case Map_get acc (emotion e) of None \<Rightarrow> 0 | Some n \<Rightarrow> n) + 1) acc)
           (map (\<lambda>x. (x, c x)) ks) es
         = map (\<lambda>x. (x, c x + occurrences es x))
             (ks @ filter (\<lambda>x. x \<notin> set ks) (firsts (map emotion es)))"
  using assms
proof (induction es arbitrary: ks c)
  case Nil
  then show ?case by (simp add: occurrences_def)
next
  case (Cons e es)
  let ?l = "emotion e"
  let ?c = "c(?l := c ?l + 1)"
  let ?ks = "if ?l \<in> set ks then ks else ks @ [?l]"
  have v: "(case Map_get (map (\<lambda>x. (x, c x)) ks) ?l of None \<Rightarrow> 0 | Some n \<Rightarrow> n) + 1 = c ?l + 1"
    using Cons.prems(2) by (simp add: Map_get_table)
  have step: "Map_set ?l (c ?l + 1) (map (\<lambda>x. (x, c x)) ks) = map (\<lambda>x. (x, ?c x)) ?ks"
    using Cons.prems(1) by (rule Map_set_table)
  have d: "distinct ?ks" using Cons.prems(1) by simp
  have z: "\<forall>x. x \<notin> set ?ks \<longrightarrow> ?c x = 0" using Cons.prems(2) by simp
  have IH: "foldl (\<lambda>acc e. Map_set (emotion e)
                   ((case Map_get acc (emotion e) of None \<Rightarrow> 0 | Some n \<Rightarrow> n) + 1) acc)
           (map (\<lambda>x. (x, ?c x)) ?ks) es
         = map (\<lambda>x. (x, ?c x + occurrences es x))
             (?ks @ filter (\<lambda>x. x \<notin> set ?ks) (firsts (map emotion es)))"
    using d z by (rule Cons.IH)
  have vals: "(\<lambda>x. (x, ?c x + occurrences es x)) = (\<lambda>x. (x, c x + occurrences (e # es) x))"
    by (auto simp: occurrences_Cons)
  have keys: "?ks @ filter (\<lambda>x. x \<notin> set ?ks) (firsts (map emotion es))
              = ks @ filter (\<lambda>x. x \<notin> set ks) (firsts (map emotion (e # es)))"
  proof (cases "?l \<in> set ks")
    case True
    have "filter (\<lambda>x. x \<notin> set ks) (filter (\<lambda>y. y \<noteq> ?l) (firsts (map emotion es)))
          = filter (\<lambda>x. x \<notin> set ks) (firsts (map emotion es))"
      using True by (auto intro: filter_cong)
    then show ?thesis using True by simp
  next
    case False
    have "filter (\<lambda>x. x \<notin> set ks) (filter (\<lambda>y. y \<noteq> ?l) (firsts (map emotion es)))
          = filter (\<lambda>x. x \<notin> set (ks @ [?l])) (firsts (map emotion es))"
      by (auto intro: filter_cong)
    then show ?thesis using False by simp
  qed
  show ?case
    by (simp only: foldl_Cons v step IH vals keys)
qed

lemma emotionCounts_table:
  "emotionCounts es = map (\<lambda>x. (x, occurrences es x)) (firsts (map emotion es))"
  using counts_fold [of "[]" "\<lambda>x. 0" es] by (simp add: emotionCounts_def)

lemma filter_head_find: "filter P xs = y # r \<Longrightarrow> find P xs = Some y"
  by (induction xs) (auto split: if_splits)

lemma find_map_table: "find P (map g xs) = map_option g (find (\<lambda>x. P (g x)) xs)"
  by (induction xs) auto

lemma sort_key_head:
  assumes "xs \<noteq> []"
  shows "\<exists>y ys. sort_key f xs = y # ys \<and> (\<forall>z \<in> set xs. f y \<le> f z)
           \<and> find (\<lambda>x. f x = f y) xs = Some y"
proof -
  have "sort_key f xs \<noteq> []" using assms by (metis length_0_conv length_sort)
  then obtain y ys where s: "sort_key f xs = y # ys" by (cases "sort_key f xs") auto
  have "sorted (map f (y # ys))" using sorted_sort_key [of f xs] by (simp only: s)
  then have le: "\<forall>z \<in> set (y # ys). f y \<le> f z" by auto
  have "set (y # ys) = set xs" using set_sort [of f xs] by (simp only: s)
  then have 1: "\<forall>z \<in> set xs. f y \<le> f z" using le by blast
  have "filter (\<lambda>x. f x = f y) xs = filter (\<lambda>x. f x = f y) (y # ys)"
    using sort_key_stable [of f "f y" xs] by (simp only: s)
  then have "filter (\<lambda>x. f x = f y) xs = y # filter (\<lambda>x. f x = f y) ys" by simp
  then have 2: "find (\<lambda>x. f x = f y) xs = Some y" by (rule filter_head_find)
  show ?thesis using s 1 2 by blast
qed

lemma mostFrequent_find:
  assumes "es \<noteq> []"
  shows "\<exists>l. mostFrequentEmotion es = Inr l
           \<and> (\<forall>x \<in> set (map emotion es). occurrences es x \<le> occurrences es l)
           \<and> find (\<lambda>x. occurrences es x = occurrences es l) (map emotion es) = Some l"
proof -
  let ?ls = "map emotion es"
  let ?g = "\<lambda>x. (x, occurrences es x)"
  let ?f = "\<lambda>entry :: jsval \<times> nat. - int (snd entry)"
  have ne: "emotionCounts es \<noteq> []"
    using assms by (cases es) (simp_all add: emotionCounts_table)
  obtain y ys where s: "sort_key ?f (emotionCounts es) = y # ys"
    and le: "\<forall>z \<in> set (emotionCounts es). ?f y \<le> ?f z"
    and fd: "find (\<lambda>x. ?f x = ?f y) (emotionCounts es) = Some y"
    using sort_key_head [OF ne, of ?f] by blast
  have "map_option ?g (find (\<lambda>x. ?f (?g x) = ?f y) (firsts ?ls)) = Some y"
    using fd by (simp only: emotionCounts_table find_map_table)
  then obtain l where l: "find (\<lambda>x. ?f (?g x) = ?f y) (firsts ?ls) = Some l" and y: "y = ?g l"
    unfolding map_option_eq_Some by blast
  have 1: "mostFrequentEmotion es = Inr l"
    using assms by (simp add: mostFrequentEmotion_def s y)
  have 2: "\<forall>x \<in> set ?ls. occurrences es x \<le> occurrences es l"
  proof
    fix x assume "x \<in> set ?ls"
    then have "x \<in> set (firsts ?ls)" by (simp only: set_firsts)
    then have "?g x \<in> ?g ` set (firsts ?ls)" by (rule imageI)
    then have "?g x \<in> set (emotionCounts es)"
      by (simp only: emotionCounts_table set_map)
    then have "?f y \<le> ?f (?g x)" using le by blast
    then show "occurrences es x \<le> occurrences es l" by (simp add: y)
  qed
  have "find (\<lambda>x. ?f (?g x) = ?f y) ?ls = Some l"
    using l by (simp only: find_firsts)
  then have 3: "find (\<lambda>x. occurrences es x = occurrences es l) ?ls = Some l"
    by (simp add: y)
  show ?thesis using 1 2 3 by blast
qed

text \<open>
  Claim C4, amended. For every non-empty session whose labels are among the ten
  labels, the most frequent emotion is a label of the session with the highest
  occurrence count, and among the labels with that count it is the one that occurs
  first in the session: it is the label of some record, and every record before that one
  has a label with a strictly smaller count.
\<close>

theorem most_frequent:
  "es \<noteq> [] \<and> (\<forall>e \<in> set es. emotion e \<in> set EmotionLabels) \<longrightarrow>
     (\<exists>l. mostFrequentEmotion es = Inr l
        \<and> (\<forall>e \<in> set es. occurrences es (emotion e) \<le> occurrences es l)
        \<and> (\<exists>i < length es. emotion (es ! i) = l
              \<and> (\<forall>j < i. occurrences es (emotion (es ! j)) < occurrences es l)))"
proof
  assume h: "es \<noteq> [] \<and> (\<forall>e \<in> set es. emotion e \<in> set EmotionLabels)"
  then obtain l where m: "mostFrequentEmotion es = Inr l"
    and le: "\<forall>x \<in> set (map emotion es). occurrences es x \<le> occurrences es l"
    and fd: "find (\<lambda>x. occurrences es x = occurrences es l) (map emotion es) = Some l"
    using mostFrequent_find [of es] by blast
  obtain i where i: "i < length (map emotion es)" "l = map emotion es ! i"
    and before: "\<forall>j < i. occurrences es (map emotion es ! j) \<noteq> occurrences es l"
    using fd unfolding find_Some_iff by blast
  have 1: "\<forall>e \<in> set es. occurrences es (emotion e) \<le> occurrences es l"
    using le by simp
  have 2: "i < length es" "emotion (es ! i) = l" using i by simp_all
  have 3: "\<forall>j < i. occurrences es (emotion (es ! j)) < occurrences es l"
  proof (intro allI impI)
    fix j assume j: "j < i"
    then have "j < length es" using 2(1) by simp
    then have "es ! j \<in> set es" by simp
    then have "occurrences es (emotion (es ! j)) \<le> occurrences es l" using 1 by blast
    moreover have "map emotion es ! j = emotion (es ! j)"
      using \<open>j < length es\<close> by simp
    then have "occurrences es (emotion (es ! j)) \<noteq> occurrences es l"
      using before j by metis
    ultimately show "occurrences es (emotion (es ! j)) < occurrences es l" by simp
  qed
  show "\<exists>l. mostFrequentEmotion es = Inr l
        \<and> (\<forall>e \<in> set es. occurrences es (emotion e) \<le> occurrences es l)
        \<and> (\<exists>i < length es. emotion (es ! i) = l
              \<and> (\<forall>j < i. occurrences es (emotion (es ! j)) < occurrences es l))"
    using m 1 2 3 by blast
qed

lemma tied_session_labels: "\<forall>e \<in> set tied_session. emotion e \<in> set EmotionLabels"
  by (simp add: tied_session_def labelled_def EmotionLabels_def)

text \<open>The session with the tie.\<close>

theorem most_frequent_witness:
  "tied_session \<noteq> []
   \<and> (\<exists>l. mostFrequentEmotion tied_session = Inr l
          \<and> occurrences tied_session (JStr (str ''nervous'')) \<le> occurrences tied_session l
          \<and> occurrences tied_session (JStr (str ''confident'')) \<le> occurrences tied_session l)"
proof -
  have ne: "tied_session \<noteq> []" by (simp add: tied_session_def)
  have mem: "labelled ''nervous'' \<in> set tied_session" "labelled ''confident'' \<in> set tied_session"
    by (simp_all add: tied_session_def)
  have em: "emotion (labelled ''nervous'') = JStr (str ''nervous'')"
    "emotion (labelled ''confident'') = JStr (str ''confident'')"
    by (simp_all add: labelled_def)
  obtain l where l: "mostFrequentEmotion tied_session = Inr l"
    "\<forall>e \<in> set tied_session. occurrences tied_session (emotion e) \<le> occurrences tied_session l"
    using most_frequent [of tied_session] ne tied_session_labels by blast
  show ?thesis using ne l mem em by metis
qed

end
